theory Spec2Isabelle
  imports Main
begin

chapter \<open>The program\<close>

section \<open>Strings and command-line arguments\<close>

text \<open>
  A Python \<open>str\<close> is modelled as a HOL \<open>string\<close>; a \<open>char\<close> stands for one code
  point below 256. \<open>sep.join(xs)\<close> is \<open>join sep xs\<close>.
\<close>

fun join :: "string \<Rightarrow> string list \<Rightarrow> string" where
  "join sep [] = []"
| "join sep [s] = s"
| "join sep (s # t # ts) = s @ sep @ join sep (t # ts)"

text \<open>
  An option given without a value on the command line is \<open>None\<close> in Python. The
  expression \<open>v or ''\<close> reads \<open>None\<close> as the empty string, and \<open>if v\<close> holds for a
  string that is present and not empty.
\<close>

definition or_empty :: "string option \<Rightarrow> string" where
  "or_empty v = (case v of None \<Rightarrow> [] | Some s \<Rightarrow> s)"

definition truthy :: "string option \<Rightarrow> bool" where
  "truthy v = (case v of None \<Rightarrow> False | Some s \<Rightarrow> s \<noteq> [])"

datatype tool = Aria2c | Wget

fun tool_name :: "tool \<Rightarrow> string" where
  "tool_name Aria2c = ''aria2c''"
| "tool_name Wget = ''wget''"

text \<open>
  The settings object \<open>args\<close> that \<open>main\<close> passes to every function: the parsed options
  the modelled functions read, and the fields \<open>main\<close> derives from them (lines 211-229).
  \<open>include\<close> and \<open>exclude\<close> of the source are \<open>include_patterns\<close> and
  \<open>exclude_patterns\<close> here, \<open>x\<close> and \<open>j\<close> are \<open>x_threads\<close> and \<open>j_jobs\<close>.
\<close>

record args =
  repo_id :: string
  include_patterns :: "string list"
  exclude_patterns :: "string list"
  hf_username :: "string option"
  hf_token :: "string option"
  tool :: tool
  x_threads :: nat
  j_jobs :: nat
  dataset :: bool
  revision :: string
  hf_endpoint :: string
  metadata_api_path :: string
  download_api_path :: string
  cut_dirs :: nat
  api_url :: string

section \<open>The invocation fingerprint (\<open>generate_command_string\<close>, lines 68-79)\<close>

definition generate_command_string :: "args \<Rightarrow> string" where
  "generate_command_string a =
     join '' ''
       [''REPO_ID='' @ repo_id a,
        ''TOOL='' @ tool_name (tool a),
        ''INCLUDE_PATTERNS='' @ join '' '' (include_patterns a),
        ''EXCLUDE_PATTERNS='' @ join '' '' (exclude_patterns a),
        ''DATASET='' @ (if dataset a then ''1'' else ''0''),
        ''HF_USERNAME='' @ or_empty (hf_username a),
        ''HF_TOKEN='' @ or_empty (hf_token a),
        ''HF_ENDPOINT='' @ hf_endpoint a,
        ''REVISION='' @ revision a]"

section \<open>The retry orchestrator of \<open>main\<close> (hfd.py, lines 273-309)\<close>

text \<open>
  The external downloader is a child process; all the orchestrator reads of it is the exit
  status of each invocation. It is modelled by a function \<open>proc\<close> from the number of
  invocations already launched to the exit status of the next one: \<open>proc 0\<close> is the
  status of the initial invocation of line 274, \<open>proc 1\<close> that of the first invocation
  of the counted loop, and so on. Every invocation is assumed to exit.

  The lines printed by the orchestrator itself are kept as a log of messages.
\<close>

datatype message =
    AttemptMsg int int
  | CompletedMsg
  | FailedMsg int
  | MaxRetriesMsg int

record outcome =
  exit_status :: int
  attempts :: int
  launched :: nat
  log :: "message list"

text \<open>
  The loop of lines 287-309. \<open>attempt\<close> is the counter of the source, \<open>n\<close> the number
  of invocations launched so far. \<open>sys.exit(1)\<close> ends the process with status 1; leaving
  the loop (by \<open>break\<close> or because the condition fails) lets \<open>main\<close> return, and the
  process ends with status 0.
\<close>

function retry_loop :: "(nat \<Rightarrow> int) \<Rightarrow> int \<Rightarrow> int \<Rightarrow> nat \<Rightarrow> message list \<Rightarrow> outcome" where
  "retry_loop proc max_retries attempt n msgs =
     (if attempt < max_retries then
        (if proc n = 0 then
           \<lparr>exit_status = 0, attempts = attempt + 1, launched = Suc n,
            log = msgs @ [AttemptMsg (attempt + 1) max_retries, CompletedMsg]\<rparr>
         else if attempt + 1 = max_retries then
           \<lparr>exit_status = 1, attempts = attempt + 1, launched = Suc n,
            log = msgs @ [AttemptMsg (attempt + 1) max_retries, FailedMsg (proc n),
                          MaxRetriesMsg max_retries]\<rparr>
         else
           retry_loop proc max_retries (attempt + 1) (Suc n)
             (msgs @ [AttemptMsg (attempt + 1) max_retries, FailedMsg (proc n)]))
      else
        \<lparr>exit_status = 0, attempts = attempt, launched = n, log = msgs\<rparr>)"
  by pat_completeness auto
termination
  by (relation "measure (\<lambda>(proc, max_retries, attempt, n, msgs). nat (max_retries - attempt))") auto

text \<open>
  Lines 274-309: the initial invocation, whose exit status \<open>proc 0\<close> is waited for and
  never read, then the counted loop, started with \<open>attempt = 0\<close>.
\<close>

definition main_download :: "(nat \<Rightarrow> int) \<Rightarrow> int \<Rightarrow> outcome" where
  "main_download proc max_retries = retry_loop proc max_retries 0 (Suc 0) []"


section \<open>Pattern compilation and search (\<open>generate_file_list\<close>, lines 134-145)\<close>

text \<open>
  \<open>re.escape\<close> (Python 3.7 and later) puts a backslash before each of the characters
  \<open>( ) [ ] { } ? * + - | ^ $ \ . & ~ #\<close>, the space, and the tab, line feed, carriage
  return, vertical tab and form feed; every other character stands for itself.
\<close>

definition backslash :: char where
  "backslash = CHR 0x5C"

definition newline :: char where
  "newline = CHR 0x0A"

definition special_chars :: "char list" where
  "special_chars =
     [CHR 0x28, CHR 0x29, CHR ''['', CHR '']'', CHR ''{'', CHR ''}'', CHR ''?'', CHR ''*'',
      CHR ''+'', CHR ''-'', CHR ''|'', CHR ''^'', CHR ''$'', CHR 0x5C, CHR ''.'', CHR ''&'',
      CHR ''~'', CHR ''#'', CHR '' '', CHR 0x09, CHR 0x0A, CHR 0x0D, CHR 0x0B, CHR 0x0C]"

definition escape_char :: "char \<Rightarrow> string" where
  "escape_char c = (if c \<in> set special_chars then [backslash, c] else [c])"

definition re_escape :: "string \<Rightarrow> string" where
  "re_escape p = concat (map escape_char p)"

text \<open>
  \<open>s.replace(r'\*', '.*')\<close>: every occurrence of a backslash followed by a star, found
  from left to right without overlap, becomes a dot followed by a star.
\<close>

fun replace_star :: "string \<Rightarrow> string" where
  "replace_star (a # b # cs) =
     (if a = backslash \<and> b = CHR ''*'' then ''.*'' @ replace_star cs
      else a # replace_star (b # cs))"
| "replace_star cs = cs"

text \<open>
  Lines 134 and 135: the patterns, escaped and with their stars replaced, joined by
  \<open>|\<close>; the empty string when there is no pattern.
\<close>

definition compile_patterns :: "string list \<Rightarrow> string" where
  "compile_patterns ps =
     (if ps \<noteq> [] then join ''|'' (map (\<lambda>p. replace_star (re_escape p)) ps) else [])"

subsection \<open>The fragment of Python's regular expressions these strings lie in\<close>

text \<open>
  \<open>re.search\<close> is library code. It is modelled on the fragment of the regular
  expression syntax that \<open>compile_patterns\<close> can produce, and a little more: a backslash
  followed by a special character is that character; a character that is not special is
  itself; a dot is any character but the line feed (no \<open>DOTALL\<close> flag is given); a star
  repeats the atom before it any number of times; a bar separates alternatives. Any other
  regular expression is outside the fragment (\<open>None\<close>).
\<close>

datatype atom = Lit char | AnyChar

datatype piece = One atom | Star atom

datatype rtoken = TAtom atom | TStar | TBar

fun re_lex :: "string \<Rightarrow> rtoken list option" where
  "re_lex [] = Some []"
| "re_lex [c] =
     (if c = backslash then None
      else if c = CHR ''.'' then Some [TAtom AnyChar]
      else if c = CHR ''*'' then Some [TStar]
      else if c = CHR ''|'' then Some [TBar]
      else if c \<in> set special_chars then None
      else Some [TAtom (Lit c)])"
| "re_lex (c # d # ds) =
     (if c = backslash then
        (if d \<in> set special_chars then map_option (Cons (TAtom (Lit d))) (re_lex ds)
         else None)
      else if c = CHR ''.'' then map_option (Cons (TAtom AnyChar)) (re_lex (d # ds))
      else if c = CHR ''*'' then map_option (Cons TStar) (re_lex (d # ds))
      else if c = CHR ''|'' then map_option (Cons TBar) (re_lex (d # ds))
      else if c \<in> set special_chars then None
      else map_option (Cons (TAtom (Lit c))) (re_lex (d # ds)))"

text \<open>
  The token list as a list of alternatives, each a sequence of pieces. A star with no
  atom before it is an error of the regular expression.
\<close>

definition add_piece :: "piece \<Rightarrow> piece list list \<Rightarrow> piece list list" where
  "add_piece p alts = (case alts of [] \<Rightarrow> [[p]] | alt # rest \<Rightarrow> (p # alt) # rest)"

fun re_group :: "rtoken list \<Rightarrow> piece list list option" where
  "re_group [] = Some [[]]"
| "re_group (TBar # ts) = map_option (Cons []) (re_group ts)"
| "re_group (TStar # ts) = None"
| "re_group (TAtom a # TStar # ts) = map_option (add_piece (Star a)) (re_group ts)"
| "re_group (TAtom a # ts) = map_option (add_piece (One a)) (re_group ts)"

fun atom_matches :: "atom \<Rightarrow> char \<Rightarrow> bool" where
  "atom_matches (Lit c) d = (c = d)"
| "atom_matches AnyChar d = (d \<noteq> newline)"

text \<open>
  \<open>match_here ps s\<close>: the sequence \<open>ps\<close> matches a prefix of \<open>s\<close>.
  \<open>search_from ps s\<close>: it matches at some position of \<open>s\<close>, the end included.
\<close>

fun match_here :: "piece list \<Rightarrow> string \<Rightarrow> bool" where
  "match_here [] s = True"
| "match_here (One a # ps) [] = False"
| "match_here (One a # ps) (c # cs) = (atom_matches a c \<and> match_here ps cs)"
| "match_here (Star a # ps) [] = match_here ps []"
| "match_here (Star a # ps) (c # cs) =
     ((atom_matches a c \<and> match_here (Star a # ps) cs) \<or> match_here ps (c # cs))"

fun search_from :: "piece list \<Rightarrow> string \<Rightarrow> bool" where
  "search_from ps [] = match_here ps []"
| "search_from ps (c # cs) = (match_here ps (c # cs) \<or> search_from ps cs)"

text \<open>
  \<open>re.search(regex, s)\<close>: \<open>Some True\<close> when a match object is returned, \<open>Some False\<close>
  when the result is \<open>None\<close> (no position matches any alternative), and \<open>None\<close> when
  the regular expression is not of the fragment.
\<close>

definition re_search :: "string \<Rightarrow> string \<Rightarrow> bool option" where
  "re_search regex s =
     (case re_lex regex of
        None \<Rightarrow> None
      | Some ts \<Rightarrow>
          (case re_group ts of
             None \<Rightarrow> None
           | Some alts \<Rightarrow> Some (list_ex (\<lambda>ps. search_from ps s) alts)))"

text \<open>
  The condition of lines 143-144 (and 166-167), with the short-circuit evaluation of
  \<open>or\<close> and \<open>and\<close>: an empty regular expression is not searched for.
\<close>

definition file_selected :: "string \<Rightarrow> string \<Rightarrow> string \<Rightarrow> bool option" where
  "file_selected include_regex exclude_regex file =
     (case (if include_regex = [] then Some True else re_search include_regex file) of
        None \<Rightarrow> None
      | Some False \<Rightarrow> Some False
      | Some True \<Rightarrow>
          (if exclude_regex = [] then Some True
           else map_option Not (re_search exclude_regex file)))"

subsection \<open>Patterns as the specification words them\<close>

text \<open>
  A star matches a run of characters, every other character matches itself, and the
  pattern may match anywhere in the path. \<open>wild\<close> says which characters a star may run
  over: all of them in the specification's words.
\<close>

fun glob_here :: "(char \<Rightarrow> bool) \<Rightarrow> string \<Rightarrow> string \<Rightarrow> bool" where
  "glob_here wild [] s = True"
| "glob_here wild (p # ps) [] = (p = CHR ''*'' \<and> glob_here wild ps [])"
| "glob_here wild (p # ps) (c # cs) =
     (if p = CHR ''*'' then (wild c \<and> glob_here wild (p # ps) cs) \<or> glob_here wild ps (c # cs)
      else p = c \<and> glob_here wild ps cs)"

fun glob_search :: "(char \<Rightarrow> bool) \<Rightarrow> string \<Rightarrow> string \<Rightarrow> bool" where
  "glob_search wild pat [] = glob_here wild pat []"
| "glob_search wild pat (c # cs) = (glob_here wild pat (c # cs) \<or> glob_search wild pat cs)"

definition spec_select :: "string list \<Rightarrow> string list \<Rightarrow> string \<Rightarrow> bool" where
  "spec_select I E p =
     ((I = [] \<or> list_ex (\<lambda>pat. glob_search (\<lambda>c. True) pat p) I) \<and>
      \<not> (E \<noteq> [] \<and> list_ex (\<lambda>pat. glob_search (\<lambda>c. True) pat p) E))"

subsection \<open>Auxiliary notions for the compilation proof\<close>

text \<open>
  What one pattern character becomes in the regular expression, the tokens and pieces
  it stands for, and the token list of a whole pattern list.
\<close>

definition chunk :: "char \<Rightarrow> string" where
  "chunk c = (if c = CHR ''*'' then ''.*'' else escape_char c)"

definition glob_tokens :: "string \<Rightarrow> rtoken list" where
  "glob_tokens p = concat (map (\<lambda>c. if c = CHR ''*'' then [TAtom AnyChar, TStar] else [TAtom (Lit c)]) p)"

definition glob_pieces :: "string \<Rightarrow> piece list" where
  "glob_pieces p = map (\<lambda>c. if c = CHR ''*'' then Star AnyChar else One (Lit c)) p"

fun alt_tokens :: "string list \<Rightarrow> rtoken list" where
  "alt_tokens [] = []"
| "alt_tokens [p] = glob_tokens p"
| "alt_tokens (p # q # qs) = glob_tokens p @ TBar # alt_tokens (q # qs)"

section \<open>The repository manifest and results of functions\<close>

text \<open>
  \<open>json.loads\<close> is library code: what it makes of the response text is given to the
  model as a value of type \<open>decoded\<close>. Either it raises \<open>json.JSONDecodeError\<close>, or it
  returns a JSON value that is not an object (a list, a string, a number, \<open>null\<close>), or it
  returns an object. Of an object the model keeps the fields the code reads, typed as
  the metadata interface gives them: \<open>gated\<close> (absent, or a scalar: the service sends
  \<open>false\<close>, \<open>"auto"\<close> or \<open>"manual"\<close>) and \<open>siblings\<close> (absent, read as the empty list,
  or a list of objects with an optional string \<open>rfilename\<close> and an optional integer
  \<open>size\<close>, named \<open>declared_size\<close> here).
\<close>

datatype jvalue = JNull | JBool bool | JInt int | JStr string

text \<open>Python's truth value of a decoded JSON scalar.\<close>

fun jtruthy :: "jvalue \<Rightarrow> bool" where
  "jtruthy JNull = False"
| "jtruthy (JBool b) = b"
| "jtruthy (JInt n) = (n \<noteq> 0)"
| "jtruthy (JStr s) = (s \<noteq> [])"

record sibling =
  rfilename :: "string option"
  declared_size :: "int option"

record manifest =
  gated :: "jvalue option"
  siblings :: "sibling list"

datatype decoded = JSONDecodeError | NonObject | Object manifest

text \<open>
  A function of the source returns, ends the process through \<open>sys.exit\<close>, or raises an
  exception that nothing catches.
\<close>

datatype exn = AttributeError | KeyError | DecodeError | RegexError

datatype 'a result = Returns 'a | Exits int | Raises exn

section \<open>The gated-access check (\<open>check_authentication\<close>, lines 97-109)\<close>

text \<open>\<open>sub in s\<close> for strings: \<open>sub\<close> occurs in \<open>s\<close> as a contiguous substring.\<close>

fun starts_with :: "string \<Rightarrow> string \<Rightarrow> bool" where
  "starts_with s [] = True"
| "starts_with [] (p # ps) = False"
| "starts_with (c # cs) (p # ps) = (c = p \<and> starts_with cs ps)"

fun contains :: "string \<Rightarrow> string \<Rightarrow> bool" where
  "contains [] sub = (sub = [])"
| "contains (c # cs) sub = (starts_with (c # cs) sub \<or> contains cs sub)"

text \<open>The literal \<open>"gated":true\<close> of line 106, with its two double quotes.\<close>

definition gated_true :: string where
  "gated_true = CHR 0x22 # ''gated'' @ CHR 0x22 # '':true''"

text \<open>
  \<open>data.get('gated', False)\<close> raises \<open>AttributeError\<close> when \<open>data\<close> is not an object;
  the \<open>except\<close> clause catches \<open>json.JSONDecodeError\<close> only.
\<close>

definition check_authentication :: "decoded \<Rightarrow> string \<Rightarrow> args \<Rightarrow> unit result" where
  "check_authentication parsed response a =
     (case parsed of
        Object data \<Rightarrow>
          (if jtruthy (case gated data of None \<Rightarrow> JBool False | Some v \<Rightarrow> v) \<and>
              (\<not> truthy (hf_token a) \<or> \<not> truthy (hf_username a))
           then Exits 1 else Returns ())
      | NonObject \<Rightarrow> Raises AttributeError
      | JSONDecodeError \<Rightarrow>
          (if contains response gated_true \<and>
              (\<not> truthy (hf_token a) \<or> \<not> truthy (hf_username a))
           then Exits 1 else Returns ()))"

section \<open>The metadata request (\<open>fetch_and_save_metadata\<close>, lines 83-85)\<close>

text \<open>The \<open>curl\<close> command; the metadata file is \<open>.hfd/repo_metadata.json\<close>.\<close>

definition fetch_cmd :: "args \<Rightarrow> string \<Rightarrow> string list" where
  "fetch_cmd a metadata_file =
     [''curl'', ''-L'', ''-s'', ''-o'', metadata_file, api_url a] @
     (if truthy (hf_token a)
      then [''-H'', ''Authorization: Bearer '' @ or_empty (hf_token a)] else [])"

section \<open>Files of the local directory\<close>

text \<open>
  The text files under the local directory, by their path relative to it. A file that
  does not exist is \<open>None\<close>. Line 229 names the plan file after the tool.
\<close>

type_synonym files = "string \<Rightarrow> string option"

definition command_file :: string where
  "command_file = ''.hfd/last_download_command''"

definition fileslist_file :: "args \<Rightarrow> string" where
  "fileslist_file a = ''.hfd/'' @ tool_name (tool a) @ ''_urls.txt''"

text \<open>
  Reading a file opened in text mode translates each carriage return, with the line
  feed after it if there is one, to a line feed (universal newlines).
\<close>

definition carriage_return :: char where
  "carriage_return = CHR 0x0D"

fun read_text :: "string \<Rightarrow> string" where
  "read_text [] = []"
| "read_text [c] = [if c = carriage_return then newline else c]"
| "read_text (c # d # ds) =
     (if c = carriage_return then
        newline # (if d = newline then read_text ds else read_text (d # ds))
      else c # read_text (d # ds))"

text \<open>
  \<open>str.strip()\<close> removes leading and trailing whitespace: among the code points below
  256, those for which \<open>str.isspace\<close> holds are 9 to 13, 28 to 32, 133 and 160.
\<close>

definition isspace :: "char \<Rightarrow> bool" where
  "isspace c = (c \<in> set [CHR 0x09, CHR 0x0A, CHR 0x0B, CHR 0x0C, CHR 0x0D, CHR 0x1C, CHR 0x1D,
                          CHR 0x1E, CHR 0x1F, CHR 0x20, CHR 0x85, CHR 0xA0])"

definition strip :: "string \<Rightarrow> string" where
  "strip s = rev (dropWhile isspace (rev (dropWhile isspace s)))"

section \<open>The plan invalidator (\<open>should_regenerate_filelist\<close>, lines 111-129)\<close>

definition should_regenerate_filelist :: "args \<Rightarrow> files \<Rightarrow> bool \<times> files" where
  "should_regenerate_filelist a fs =
     (let current_command = generate_command_string a in
      if fs (fileslist_file a) = None \<or> fs command_file = None then
        (True, fs(command_file \<mapsto> current_command))
      else
        (case fs command_file of
           None \<Rightarrow> (True, fs(command_file \<mapsto> current_command))
         | Some text \<Rightarrow>
             (let saved_command = strip (read_text text) in
              if current_command \<noteq> saved_command then
                (True, fs(command_file \<mapsto> current_command))
              else (False, fs))))"

section \<open>The plan generator (\<open>generate_file_list\<close>, lines 131-177)\<close>

text \<open>
  \<open>os.path.basename\<close> and \<open>os.path.dirname\<close> (posixpath): the path is cut after its
  last slash; the directory part loses its trailing slashes unless it consists of
  slashes only.
\<close>

definition basename :: "string \<Rightarrow> string" where
  "basename p = rev (takeWhile (\<lambda>c. c \<noteq> CHR ''/'') (rev p))"

definition dirname :: "string \<Rightarrow> string" where
  "dirname p =
     (let head = rev (dropWhile (\<lambda>c. c \<noteq> CHR ''/'') (rev p)) in
      if head \<noteq> [] \<and> head \<noteq> replicate (length head) (CHR ''/'')
      then rev (dropWhile (\<lambda>c. c = CHR ''/'') (rev head))
      else head)"

text \<open>Lines 149 and 168: the address a file is fetched from.\<close>

definition url :: "args \<Rightarrow> string \<Rightarrow> string" where
  "url a file =
     hf_endpoint a @ ''/'' @ download_api_path a @ ''/resolve/'' @ revision a @ ''/'' @ file"

text \<open>Lines 150-158 (and 169-177): what is written to the plan file for one file.\<close>

definition write_entry :: "args \<Rightarrow> string \<Rightarrow> string" where
  "write_entry a file =
     (if tool a = Aria2c then
        url a file @ [newline] @
        ''  dir='' @ dirname file @ [newline] @
        ''  out='' @ basename file @ [newline] @
        (if truthy (hf_token a)
         then ''  header=Authorization: Bearer '' @ or_empty (hf_token a) @ [newline]
         else []) @
        [newline]
      else url a file @ [newline])"

text \<open>
  Line 139: the file names of the manifest, in its order; an entry with no
  \<open>rfilename\<close>, or an empty one, is left out.
\<close>

fun manifest_files :: "sibling list \<Rightarrow> string list" where
  "manifest_files [] = []"
| "manifest_files (sib # sibs) =
     (case rfilename sib of
        None \<Rightarrow> manifest_files sibs
      | Some name \<Rightarrow> (if name \<noteq> [] then name # manifest_files sibs else manifest_files sibs))"

text \<open>
  The loop of lines 142-145 (and the test of lines 166-167): the files that pass the
  selection test, in order. An error of the regular expression would end the function.
\<close>

fun filter_files :: "string \<Rightarrow> string \<Rightarrow> string list \<Rightarrow> string list option" where
  "filter_files include_regex exclude_regex [] = Some []"
| "filter_files include_regex exclude_regex (file # files) =
     (case file_selected include_regex exclude_regex file of
        None \<Rightarrow> None
      | Some keep \<Rightarrow>
          map_option (\<lambda>filtered. if keep then file # filtered else filtered)
            (filter_files include_regex exclude_regex files))"

text \<open>
  Line 162, \<open>re.findall(r'"rfilename":"([^"]*)"', response)\<close>: from left to right, at each
  occurrence of \<open>"rfilename":"\<close> that is followed by a closing double quote, the text up
  to that quote; the scan goes on after the quote.
\<close>

definition rfilename_key :: string where
  "rfilename_key = CHR 0x22 # ''rfilename'' @ CHR 0x22 # CHR '':'' # [CHR 0x22]"

fun until_quote :: "string \<Rightarrow> (string \<times> string) option" where
  "until_quote [] = None"
| "until_quote (c # cs) =
     (if c = CHR 0x22 then Some ([], cs)
      else map_option (\<lambda>(name, rest). (c # name, rest)) (until_quote cs))"

lemma until_quote_shorter: "until_quote s = Some (name, rest) \<Longrightarrow> length rest < length s"
proof (induction s arbitrary: name)
  case Nil
  then show ?case by simp
next
  case (Cons c cs)
  show ?case
  proof (cases "c = CHR 0x22")
    case True
    then show ?thesis using Cons.prems by simp
  next
    case False
    then obtain name' where "until_quote cs = Some (name', rest)"
      using Cons.prems by (cases "until_quote cs") auto
    from Cons.IH [OF this] show ?thesis by simp
  qed
qed

function findall_rfilename :: "string \<Rightarrow> string list" where
  "findall_rfilename [] = []"
| "findall_rfilename (c # cs) =
     (if starts_with (c # cs) rfilename_key then
        (case until_quote (drop (length rfilename_key) (c # cs)) of
           Some (name, rest) \<Rightarrow> name # findall_rfilename rest
         | None \<Rightarrow> findall_rfilename cs)
      else findall_rfilename cs)"
  by pat_completeness auto
termination
proof (relation "measure length")
  fix c cs x2 x y
  assume "until_quote (drop (length rfilename_key) (c # cs)) = Some x2" and "(x, y) = x2"
  then have "until_quote (drop (length rfilename_key) (c # cs)) = Some (x, y)" by simp
  from until_quote_shorter [OF this]
  show "(y, c # cs) \<in> measure length" by simp
qed simp_all

definition generate_file_list :: "args \<Rightarrow> decoded \<Rightarrow> string \<Rightarrow> files \<Rightarrow> files result" where
  "generate_file_list a parsed response fs =
     (let include_regex = compile_patterns (include_patterns a);
          exclude_regex = compile_patterns (exclude_patterns a)
      in case parsed of
           Object data \<Rightarrow>
             (case filter_files include_regex exclude_regex (manifest_files (siblings data)) of
                None \<Rightarrow> Raises RegexError
              | Some filtered_files \<Rightarrow>
                  Returns (fs(fileslist_file a \<mapsto> concat (map (write_entry a) filtered_files))))
         | NonObject \<Rightarrow> Raises AttributeError
         | JSONDecodeError \<Rightarrow>
             (case filter_files include_regex exclude_regex (findall_rfilename response) of
                None \<Rightarrow> Raises RegexError
              | Some selected \<Rightarrow>
                  Returns (fs(fileslist_file a \<mapsto> concat (map (write_entry a) selected)))))"

section \<open>The verifier (\<open>verify_files\<close>, lines 179-187)\<close>

text \<open>
  \<open>sizes\<close> gives the byte length of each file that exists under the local directory.
  \<open>sib['rfilename']\<close> raises \<open>KeyError\<close> when the entry has no such key; a declared size
  that is absent or zero is false in the test of line 184.
\<close>

fun verify_siblings :: "(string \<Rightarrow> nat option) \<Rightarrow> sibling list \<Rightarrow> bool result" where
  "verify_siblings sizes [] = Returns True"
| "verify_siblings sizes (sib # sibs) =
     (case rfilename sib of
        None \<Rightarrow> Raises KeyError
      | Some name \<Rightarrow>
          (case declared_size sib of
             None \<Rightarrow> verify_siblings sizes sibs
           | Some expected_size \<Rightarrow>
               (if expected_size \<noteq> 0 \<and>
                   (case sizes name of None \<Rightarrow> False | Some st_size \<Rightarrow> int st_size \<noteq> expected_size)
                then Returns False
                else verify_siblings sizes sibs)))"

definition verify_files :: "(string \<Rightarrow> nat option) \<Rightarrow> decoded \<Rightarrow> bool result" where
  "verify_files sizes metadata =
     (case metadata of
        JSONDecodeError \<Rightarrow> Raises DecodeError
      | NonObject \<Rightarrow> Raises AttributeError
      | Object data \<Rightarrow> verify_siblings sizes (siblings data))"

section \<open>\<open>main\<close>: settings, plan phase, downloader command, whole run\<close>

text \<open>
  Lines 211-229: the fields derived from the parsed options. \<open>enable_mirror\<close> is the
  flag of that name.
\<close>

definition main_setup :: "args \<Rightarrow> bool \<Rightarrow> args" where
  "main_setup a enable_mirror =
     (let endpoint = (if enable_mirror then ''https://hf-mirror.com''
                      else ''https://huggingface.co'');
          api_path = (if dataset a then ''datasets/'' @ repo_id a else ''models/'' @ repo_id a);
          api_path' = (if revision a \<noteq> ''main'' then api_path @ ''/revision/'' @ revision a
                       else api_path)
      in a\<lparr>hf_endpoint := endpoint,
           metadata_api_path := api_path',
           download_api_path := (if dataset a then ''datasets/'' @ repo_id a else repo_id a),
           cut_dirs := (if dataset a then 5 else 4),
           api_url := endpoint @ ''/api/'' @ api_path'\<rparr>)"

text \<open>
  Lines 244-250. The result says whether the plan was generated. Line 245 removes the
  plan file named relative to the current directory, which is the plan file of the
  local directory only when the local directory is the current one (\<open>in_cwd\<close>).
\<close>

definition main_plan_phase ::
    "args \<Rightarrow> decoded \<Rightarrow> string \<Rightarrow> bool \<Rightarrow> files \<Rightarrow> (bool \<times> files) result" where
  "main_plan_phase a parsed response in_cwd fs =
     (case should_regenerate_filelist a fs of
        (True, fs1) \<Rightarrow>
          map_result (Pair True)
            (generate_file_list a parsed response
               (if in_cwd then fs1(fileslist_file a := None) else fs1))
      | (False, fs1) \<Rightarrow> Returns (False, fs1))"

text \<open>\<open>str(n)\<close> for a natural number: its decimal digits.\<close>

definition digit_char :: "nat \<Rightarrow> char" where
  "digit_char d = char_of (of_char (CHR ''0'') + d)"

function str_nat :: "nat \<Rightarrow> string" where
  "str_nat n = (if n < 10 then [digit_char n] else str_nat (n div 10) @ [digit_char (n mod 10)])"
  by pat_completeness auto
termination
  by (relation "measure id") auto

text \<open>Lines 255-271: the command line of the downloader.\<close>

definition download_cmd :: "args \<Rightarrow> string list" where
  "download_cmd a =
     (if tool a = Aria2c then
        [''aria2c'', ''--summary-interval=1'', ''--file-allocation=none'',
         ''--check-integrity=true'', ''--max-tries=10000000'', ''--retry-wait=1'',
         ''--disk-cache=32M'', ''--async-dns=false'', ''--disable-ipv6=true'',
         ''-x'', str_nat (x_threads a), ''-j'', str_nat (j_jobs a), ''-s'', str_nat (x_threads a),
         ''-k'', ''1M'', ''-c'', ''-i'', fileslist_file a,
         ''--save-session'', fileslist_file a]
      else
        [''wget'', ''-x'', ''-nH'', ''--cut-dirs='' @ str_nat (cut_dirs a),
         ''--input-file'', fileslist_file a, ''--continue'',
         ''--progress=bar:force'', ''nv''] @
        (if truthy (hf_token a)
         then [''--header=Authorization: Bearer '' @ or_empty (hf_token a)] else []))"

text \<open>
  Lines 237-309, from the response text on: the gated-access check, the plan phase,
  the downloads. The run ends there: \<open>verify_files\<close> is called nowhere. When the download
  phase is reached, the result holds the files of the local directory as the plan phase
  left them and the outcome of the downloads, with the exit status of the process.
\<close>

definition main_run ::
    "args \<Rightarrow> decoded \<Rightarrow> string \<Rightarrow> bool \<Rightarrow> files \<Rightarrow> (nat \<Rightarrow> int) \<Rightarrow> int \<Rightarrow> (files \<times> outcome) result" where
  "main_run a parsed response in_cwd fs proc max_retries =
     (case check_authentication parsed response a of
        Exits status \<Rightarrow> Exits status
      | Raises e \<Rightarrow> Raises e
      | Returns u \<Rightarrow>
          (case main_plan_phase a parsed response in_cwd fs of
             Exits status \<Rightarrow> Exits status
           | Raises e \<Rightarrow> Raises e
           | Returns (regenerated, fs1) \<Rightarrow> Returns (fs1, main_download proc max_retries)))"

section \<open>Sample inputs\<close>

text \<open>
  The settings of \<open>python hfd.py gpt2\<close>: no patterns, no credentials, the default tool,
  endpoint and revision.
\<close>

definition gpt2_args :: args where
  "gpt2_args =
     \<lparr>repo_id = ''gpt2'', include_patterns = [], exclude_patterns = [],
      hf_username = None, hf_token = None, tool = Aria2c, x_threads = 3, j_jobs = 4,
      dataset = False, revision = ''main'', hf_endpoint = ''https://huggingface.co'',
      metadata_api_path = ''models/gpt2'', download_api_path = ''gpt2'', cut_dirs = 4,
      api_url = ''https://huggingface.co/api/models/gpt2''\<rparr>"

text \<open>
  The same settings with a revision that ends in a space, and a local directory as a
  first run with these settings leaves it: the fingerprint recorded, the plan written.
\<close>

definition trailing_space_args :: args where
  "trailing_space_args = gpt2_args\<lparr>revision := ''main ''\<rparr>"

definition trailing_space_files :: files where
  "trailing_space_files =
     [command_file \<mapsto> generate_command_string trailing_space_args,
      fileslist_file trailing_space_args \<mapsto> []]"

text \<open>
  The manifest of the end-to-end scenario: not gated, \<open>a.bin\<close> of declared size 10 and
  \<open>README.md\<close> with no declared size.
\<close>

definition scenario_manifest :: manifest where
  "scenario_manifest =
     \<lparr>gated = Some (JBool False),
      siblings = [\<lparr>rfilename = Some ''a.bin'', declared_size = Some 10\<rparr>,
                  \<lparr>rfilename = Some ''README.md'', declared_size = None\<rparr>]\<rparr>"


text \<open>
  A manifest whose one entry has the empty string for its file name, and a manifest
  with a nested path, an entry without a file name, a file that the pattern \<open>*.md\<close>
  excludes, an entry with an empty file name and a file at the root, in this order.
\<close>

definition unnamed_manifest :: manifest where
  "unnamed_manifest = \<lparr>gated = None, siblings = [\<lparr>rfilename = Some [], declared_size = None\<rparr>]\<rparr>"

definition mixed_manifest :: manifest where
  "mixed_manifest =
     \<lparr>gated = Some (JBool False),
      siblings = [\<lparr>rfilename = Some ''vae/weights.bin'', declared_size = Some 7\<rparr>,
                  \<lparr>rfilename = None, declared_size = Some 3\<rparr>,
                  \<lparr>rfilename = Some ''README.md'', declared_size = None\<rparr>,
                  \<lparr>rfilename = Some [], declared_size = None\<rparr>,
                  \<lparr>rfilename = Some ''a.bin'', declared_size = Some 10\<rparr>]\<rparr>"

chapter \<open>Verified properties\<close>

section \<open>The retry orchestrator\<close>

declare retry_loop.simps [simp del]

lemma retry_loop_done:
  "\<not> attempt < max_retries \<Longrightarrow>
     retry_loop proc max_retries attempt n msgs =
       \<lparr>exit_status = 0, attempts = attempt, launched = n, log = msgs\<rparr>"
  by (simp add: retry_loop.simps)

lemma retry_loop_success:
  "attempt < max_retries \<Longrightarrow> proc n = 0 \<Longrightarrow>
     retry_loop proc max_retries attempt n msgs =
       \<lparr>exit_status = 0, attempts = attempt + 1, launched = Suc n,
        log = msgs @ [AttemptMsg (attempt + 1) max_retries, CompletedMsg]\<rparr>"
  by (simp add: retry_loop.simps)

lemma retry_loop_exhausted:
  "attempt + 1 = max_retries \<Longrightarrow> proc n \<noteq> 0 \<Longrightarrow>
     retry_loop proc max_retries attempt n msgs =
       \<lparr>exit_status = 1, attempts = attempt + 1, launched = Suc n,
        log = msgs @ [AttemptMsg (attempt + 1) max_retries, FailedMsg (proc n),
                      MaxRetriesMsg max_retries]\<rparr>"
  by (simp add: retry_loop.simps)

lemma retry_loop_again:
  "attempt + 1 < max_retries \<Longrightarrow> proc n \<noteq> 0 \<Longrightarrow>
     retry_loop proc max_retries attempt n msgs =
       retry_loop proc max_retries (attempt + 1) (Suc n)
         (msgs @ [AttemptMsg (attempt + 1) max_retries, FailedMsg (proc n)])"
  by (simp add: retry_loop.simps)

text \<open>
  With a downloader that never exits with zero the loop makes every counted attempt of
  its budget and ends the process with status 1.
\<close>

lemma retry_loop_always_failing:
  "\<forall>k. proc k \<noteq> 0 \<Longrightarrow> attempt < max_retries \<Longrightarrow>
     exit_status (retry_loop proc max_retries attempt n msgs) = 1 \<and>
     attempts (retry_loop proc max_retries attempt n msgs) = max_retries \<and>
     launched (retry_loop proc max_retries attempt n msgs) = n + nat (max_retries - attempt)"
proof (induction proc max_retries attempt n msgs rule: retry_loop.induct)
  case (1 proc max_retries attempt n msgs)
  have nz: "proc n \<noteq> 0" using "1.prems" by simp
  show ?case
  proof (cases "attempt + 1 = max_retries")
    case True
    then show ?thesis using nz by (simp add: retry_loop_exhausted)
  next
    case False
    then have lt: "attempt + 1 < max_retries" using "1.prems" by simp
    have "attempt < max_retries" using lt by simp
    from "1.IH" [OF this nz False "1.prems"(1) lt] lt nz
    show ?thesis by (simp add: retry_loop_again nat_diff_distrib')
  qed
qed

text \<open>
  C3. Retry budget. With a downloader that exits nonzero on every invocation and a maximum
  of 3, the orchestrator makes exactly 3 counted attempts after the initial invocation
  (4 invocations in all) and the process ends with status 1. With a downloader whose first
  counted attempt fails and whose second counted attempt exits with zero, the process ends
  with status 0 after exactly 2 counted attempts.
\<close>

theorem retry_budget:
  "((\<forall>k. proc k \<noteq> 0) \<longrightarrow>
      exit_status (main_download proc 3) = 1 \<and>
      attempts (main_download proc 3) = 3 \<and>
      launched (main_download proc 3) = 4) \<and>
   (proc 1 \<noteq> 0 \<and> proc 2 = 0 \<longrightarrow>
      exit_status (main_download proc 3) = 0 \<and>
      attempts (main_download proc 3) = 2 \<and>
      launched (main_download proc 3) = 3)"
proof (intro conjI impI)
  assume fail: "\<forall>k. proc k \<noteq> 0"
  have "(0::int) < 3" by simp
  from retry_loop_always_failing [OF fail this, of "Suc 0" "[]"]
  show "exit_status (main_download proc 3) = 1"
    and "attempts (main_download proc 3) = 3"
    and "launched (main_download proc 3) = 4"
    by (simp_all add: main_download_def)
next
  assume h: "proc 1 \<noteq> 0 \<and> proc 2 = 0"
  have "main_download proc 3 =
          \<lparr>exit_status = 0, attempts = 2, launched = 3,
           log = [AttemptMsg 1 3, FailedMsg (proc 1), AttemptMsg 2 3, CompletedMsg]\<rparr>"
    using h by (simp add: main_download_def retry_loop_again retry_loop_success
      numeral_2_eq_2 numeral_3_eq_3)
  then show "exit_status (main_download proc 3) = 0"
    and "attempts (main_download proc 3) = 2"
    and "launched (main_download proc 3) = 3"
    by simp_all
qed

theorem retry_budget_witness:
  "exit_status (main_download (\<lambda>k. 1) 3) = 1 \<and>
   attempts (main_download (\<lambda>k. 1) 3) = 3 \<and>
   launched (main_download (\<lambda>k. 1) 3) = 4 \<and>
   exit_status (main_download (\<lambda>k. if k = 2 then 0 else 1) 3) = 0 \<and>
   attempts (main_download (\<lambda>k. if k = 2 then 0 else 1) 3) = 2 \<and>
   launched (main_download (\<lambda>k. if k = 2 then 0 else 1) 3) = 3"
  using retry_budget [of "\<lambda>k. 1"] retry_budget [of "\<lambda>k. if k = 2 then 0 else 1"]
  by simp

text \<open>
  C2. A zero exit status ends the run only inside the counted loop. The exit status of the
  initial invocation is never read: with a downloader that exits with zero at once and
  the default budget of 1000000, the orchestrator goes on to launch the first counted
  attempt (two invocations in all) before it reports success.
\<close>

theorem initial_success_is_relaunched:
  "main_download (\<lambda>k. 0) 1000000 =
     \<lparr>exit_status = 0, attempts = 1, launched = 2,
      log = [AttemptMsg 1 1000000, CompletedMsg]\<rparr>"
  by (simp add: main_download_def retry_loop_success numeral_2_eq_2)

text \<open>
  C9. A maximum that is zero or negative: the counted loop makes no attempt, \<open>main\<close>
  returns and the process ends with status 0, whatever the initial invocation (the only
  one launched) returned.
\<close>

theorem nonpositive_max_retries_exits_zero:
  "max_retries \<le> 0 \<Longrightarrow>
     main_download proc max_retries =
       \<lparr>exit_status = 0, attempts = 0, launched = Suc 0, log = []\<rparr>"
  by (simp add: main_download_def retry_loop_done)

theorem nonpositive_max_retries_exits_zero_witness:
  "main_download (\<lambda>k. 1) 0 = \<lparr>exit_status = 0, attempts = 0, launched = Suc 0, log = []\<rparr> \<and>
   main_download (\<lambda>k. 1) (- 5) = \<lparr>exit_status = 0, attempts = 0, launched = Suc 0, log = []\<rparr>"
  using nonpositive_max_retries_exits_zero [of 0 "\<lambda>k. 1"]
    nonpositive_max_retries_exits_zero [of "- 5" "\<lambda>k. 1"]
  by simp

section \<open>The invocation fingerprint\<close>

text \<open>
  The fingerprint joins nine \<open>KEY=value\<close> fields with single spaces. Replacing one
  parameter leaves the text before and after its field as it was, so the fingerprint
  changes exactly when the text of that field changes.
\<close>

text \<open>
  C4 as stated fails: the pattern lists \<open>["a b"]\<close> and \<open>["a", "b"]\<close> are rendered alike,
  and so are an absent user name and an empty one.
\<close>

theorem fingerprint_collision:
  "generate_command_string (gpt2_args\<lparr>include_patterns := [''a b'']\<rparr>) =
     generate_command_string (gpt2_args\<lparr>include_patterns := [''a'', ''b'']\<rparr>) \<and>
   [''a b''] \<noteq> [''a'', ''b''] \<and>
   generate_command_string (gpt2_args\<lparr>hf_username := Some []\<rparr>) =
     generate_command_string (gpt2_args\<lparr>hf_username := None\<rparr>) \<and>
   Some [] \<noteq> (None :: string option)"
  by (simp add: generate_command_string_def gpt2_args_def or_empty_def)

text \<open>
  C4, amended. Equal parameter sets have equal fingerprints. Two parameter sets that differ
  in exactly one of repo id, tool, dataset flag, endpoint and revision have different
  fingerprints. Two that differ only in the include list (or only in the exclude list) have
  different fingerprints exactly when the lists, joined by single spaces, differ. Two that
  differ only in the user name (or only in the token) have different fingerprints exactly
  when the two values differ after an absent one is read as the empty string.
\<close>

theorem fingerprint_sensitivity:
  "(a = b \<longrightarrow> generate_command_string a = generate_command_string b) \<and>
   (generate_command_string (a\<lparr>repo_id := r\<rparr>) = generate_command_string a
      \<longleftrightarrow> r = repo_id a) \<and>
   (generate_command_string (a\<lparr>tool := t\<rparr>) = generate_command_string a
      \<longleftrightarrow> t = tool a) \<and>
   (generate_command_string (a\<lparr>dataset := d\<rparr>) = generate_command_string a
      \<longleftrightarrow> d = dataset a) \<and>
   (generate_command_string (a\<lparr>hf_endpoint := e\<rparr>) = generate_command_string a
      \<longleftrightarrow> e = hf_endpoint a) \<and>
   (generate_command_string (a\<lparr>revision := v\<rparr>) = generate_command_string a
      \<longleftrightarrow> v = revision a) \<and>
   (generate_command_string (a\<lparr>include_patterns := I\<rparr>) = generate_command_string a
      \<longleftrightarrow> join '' '' I = join '' '' (include_patterns a)) \<and>
   (generate_command_string (a\<lparr>exclude_patterns := E\<rparr>) = generate_command_string a
      \<longleftrightarrow> join '' '' E = join '' '' (exclude_patterns a)) \<and>
   (generate_command_string (a\<lparr>hf_username := u\<rparr>) = generate_command_string a
      \<longleftrightarrow> or_empty u = or_empty (hf_username a)) \<and>
   (generate_command_string (a\<lparr>hf_token := k\<rparr>) = generate_command_string a
      \<longleftrightarrow> or_empty k = or_empty (hf_token a))"
proof -
  have "generate_command_string (a\<lparr>tool := t\<rparr>) = generate_command_string a
          \<longleftrightarrow> t = tool a"
    by (cases t; cases "tool a") (simp_all add: generate_command_string_def)
  then show ?thesis
    by (simp add: generate_command_string_def)
qed

theorem fingerprint_sensitivity_witness:
  "generate_command_string (gpt2_args\<lparr>revision := ''5_0''\<rparr>) \<noteq>
     generate_command_string gpt2_args \<and>
   generate_command_string (gpt2_args\<lparr>tool := Wget\<rparr>) \<noteq>
     generate_command_string gpt2_args \<and>
   generate_command_string (gpt2_args\<lparr>include_patterns := [''vae/*'']\<rparr>) \<noteq>
     generate_command_string gpt2_args \<and>
   generate_command_string (gpt2_args\<lparr>hf_token := Some ''t0''\<rparr>) \<noteq>
     generate_command_string gpt2_args"
  using fingerprint_sensitivity [of gpt2_args gpt2_args "repo_id gpt2_args" Wget False
      "hf_endpoint gpt2_args" "''5_0''" "[''vae/*'']" "[]" None "Some ''t0''"]
  by (simp add: gpt2_args_def or_empty_def)

section \<open>Pattern compilation and file selection\<close>

text \<open>
  The regular expression built from a pattern list lies in the modelled fragment, and
  searching for it is searching for one of the patterns, read with a star that runs
  over any characters but line feeds.
\<close>

lemma special_facts:
  "backslash \<in> set special_chars" "CHR ''*'' \<in> set special_chars"
  "CHR ''.'' \<in> set special_chars" "CHR ''|'' \<in> set special_chars"
  by (simp_all add: special_chars_def backslash_def)

lemma re_escape_Cons: "re_escape (c # p) = escape_char c @ re_escape p"
  by (simp add: re_escape_def)

lemma re_escape_no_star: "re_escape q \<noteq> CHR ''*'' # xs"
  using special_facts(2)
  by (cases q) (auto simp: re_escape_def escape_char_def backslash_def)

lemma replace_star_Cons:
  "a \<noteq> backslash \<or> (\<forall>xs. s \<noteq> CHR ''*'' # xs) \<Longrightarrow> replace_star (a # s) = a # replace_star s"
  by (cases s) auto

lemma replace_star_escape: "replace_star (re_escape p) = concat (map chunk p)"
proof (induction p)
  case Nil
  show ?case by (simp add: re_escape_def)
next
  case (Cons c p)
  show ?case
  proof (cases "c \<in> set special_chars")
    case True
    then have "replace_star (re_escape (c # p)) = replace_star (backslash # c # re_escape p)"
      by (simp add: re_escape_Cons escape_char_def)
    also have "\<dots> = chunk c @ replace_star (re_escape p)"
      using True re_escape_no_star [of p]
      by (simp add: chunk_def escape_char_def replace_star_Cons)
    finally show ?thesis using Cons.IH by simp
  next
    case False
    then have "c \<noteq> backslash" and "c \<noteq> CHR ''*''" using special_facts by auto
    then show ?thesis using False Cons.IH
      by (simp add: re_escape_Cons escape_char_def chunk_def replace_star_Cons)
  qed
qed

lemma re_lex_plain:
  "c \<notin> set special_chars \<Longrightarrow> re_lex (c # s) = map_option (Cons (TAtom (Lit c))) (re_lex s)"
  using special_facts by (cases s) auto

lemma re_lex_escaped:
  "d \<in> set special_chars \<Longrightarrow> re_lex (backslash # d # s) = map_option (Cons (TAtom (Lit d))) (re_lex s)"
  by simp

lemma re_lex_dot: "re_lex (CHR ''.'' # s) = map_option (Cons (TAtom AnyChar)) (re_lex s)"
  by (cases s) (simp_all add: backslash_def)

lemma re_lex_star: "re_lex (CHR ''*'' # s) = map_option (Cons TStar) (re_lex s)"
  by (cases s) (simp_all add: backslash_def)

lemma re_lex_bar: "re_lex (CHR ''|'' # s) = map_option (Cons TBar) (re_lex s)"
  by (cases s) (simp_all add: backslash_def)

lemma glob_tokens_star: "glob_tokens (CHR ''*'' # p) = TAtom AnyChar # TStar # glob_tokens p"
  by (simp add: glob_tokens_def)

lemma glob_tokens_lit: "c \<noteq> CHR ''*'' \<Longrightarrow> glob_tokens (c # p) = TAtom (Lit c) # glob_tokens p"
  by (simp add: glob_tokens_def)

lemma glob_pieces_star: "glob_pieces (CHR ''*'' # p) = Star AnyChar # glob_pieces p"
  by (simp add: glob_pieces_def)

lemma glob_pieces_lit: "c \<noteq> CHR ''*'' \<Longrightarrow> glob_pieces (c # p) = One (Lit c) # glob_pieces p"
  by (simp add: glob_pieces_def)

lemma chunk_star: "chunk (CHR ''*'') = ''.*''"
  by (simp add: chunk_def)

lemma re_lex_chunks:
  "re_lex (concat (map chunk p) @ rest) = map_option ((@) (glob_tokens p)) (re_lex rest)"
proof (induction p)
  case Nil
  show ?case by (simp add: glob_tokens_def option.map_ident)
next
  case (Cons c p)
  show ?case
  proof (cases "c = CHR ''*''")
    case True
    have "re_lex (concat (map chunk (c # p)) @ rest)
        = re_lex (CHR ''.'' # CHR ''*'' # (concat (map chunk p) @ rest))"
      using True by (simp add: chunk_star)
    also have "\<dots> = map_option ((@) (glob_tokens (c # p))) (re_lex rest)"
      unfolding re_lex_dot re_lex_star Cons.IH True glob_tokens_star
      by (cases "re_lex rest") simp_all
    finally show ?thesis .
  next
    case False
    show ?thesis
    proof (cases "c \<in> set special_chars")
      case True
      have "re_lex (concat (map chunk (c # p)) @ rest)
          = re_lex (backslash # c # (concat (map chunk p) @ rest))"
        using True False by (simp add: chunk_def escape_char_def)
      also have "\<dots> = map_option ((@) (glob_tokens (c # p))) (re_lex rest)"
        unfolding re_lex_escaped [OF True] Cons.IH glob_tokens_lit [OF False]
        by (cases "re_lex rest") simp_all
      finally show ?thesis .
    next
      case nsp: False
      have "re_lex (concat (map chunk (c # p)) @ rest)
          = re_lex (c # (concat (map chunk p) @ rest))"
        using nsp False by (simp add: chunk_def escape_char_def)
      also have "\<dots> = map_option ((@) (glob_tokens (c # p))) (re_lex rest)"
        unfolding re_lex_plain [OF nsp] Cons.IH glob_tokens_lit [OF False]
        by (cases "re_lex rest") simp_all
      finally show ?thesis .
    qed
  qed
qed

lemma re_lex_compile:
  "re_lex (join ''|'' (map (\<lambda>p. concat (map chunk p)) ps)) = Some (alt_tokens ps)"
proof (induction ps rule: alt_tokens.induct)
  case 1
  show ?case by simp
next
  case (2 p)
  show ?case using re_lex_chunks [of p "[]"] by simp
next
  case (3 p q qs)
  have "re_lex (join ''|'' (map (\<lambda>p. concat (map chunk p)) (p # q # qs)))
      = re_lex (concat (map chunk p) @ CHR ''|'' # join ''|'' (map (\<lambda>p. concat (map chunk p)) (q # qs)))"
    by simp
  also have "\<dots> = Some (alt_tokens (p # q # qs))"
    using "3.IH" by (simp only: re_lex_chunks re_lex_bar) simp
  finally show ?case .
qed

lemma foldr_add_piece: "foldr add_piece ps (alt # alts) = (ps @ alt) # alts"
  by (induction ps) (simp_all add: add_piece_def)

lemma re_group_atom:
  "\<forall>us. ts \<noteq> TStar # us \<Longrightarrow> re_group (TAtom a # ts) = map_option (add_piece (One a)) (re_group ts)"
proof (cases ts)
  case Nil then show ?thesis by simp
next
  case (Cons t us)
  then show "\<forall>us. ts \<noteq> TStar # us \<Longrightarrow> ?thesis" by (cases t) simp_all
qed

lemma glob_tokens_no_star: "\<forall>us. rest \<noteq> TStar # us \<Longrightarrow> glob_tokens p @ rest \<noteq> TStar # us"
  by (cases p) (auto simp: glob_tokens_def)

lemma re_group_tokens:
  "\<forall>us. rest \<noteq> TStar # us \<Longrightarrow>
     re_group (glob_tokens p @ rest) = map_option (foldr add_piece (glob_pieces p)) (re_group rest)"
proof (induction p)
  case Nil
  show ?case by (simp add: glob_tokens_def glob_pieces_def option.map_ident)
next
  case (Cons c p)
  show ?case
  proof (cases "c = CHR ''*''")
    case True
    show ?thesis
      unfolding True glob_tokens_star glob_pieces_star
      using Cons.IH [OF Cons.prems]
      by (simp add: option.map_comp comp_def)
  next
    case False
    have "\<forall>us. glob_tokens p @ rest \<noteq> TStar # us"
      using glob_tokens_no_star [OF Cons.prems] by blast
    then show ?thesis
      unfolding glob_tokens_lit [OF False] glob_pieces_lit [OF False]
      using Cons.IH [OF Cons.prems]
      by (simp add: re_group_atom option.map_comp comp_def)
  qed
qed

lemma re_group_compile: "ps \<noteq> [] \<Longrightarrow> re_group (alt_tokens ps) = Some (map glob_pieces ps)"
proof (induction ps rule: alt_tokens.induct)
  case 1
  then show ?case by simp
next
  case (2 p)
  show ?case using re_group_tokens [of "[]" p] by (simp add: foldr_add_piece)
next
  case (3 p q qs)
  have "re_group (alt_tokens (p # q # qs)) = re_group (glob_tokens p @ TBar # alt_tokens (q # qs))"
    by simp
  also have "\<dots> = map_option (foldr add_piece (glob_pieces p)) (re_group (TBar # alt_tokens (q # qs)))"
    by (rule re_group_tokens) simp
  also have "\<dots> = Some (map glob_pieces (p # q # qs))"
    using "3.IH" by (simp add: foldr_add_piece)
  finally show ?case .
qed

lemma match_here_glob:
  "match_here (glob_pieces pat) s = glob_here (\<lambda>c. c \<noteq> newline) pat s"
  by (induction "\<lambda>c. c \<noteq> newline" pat s rule: glob_here.induct) (auto simp: glob_pieces_def)

lemma search_from_glob:
  "search_from (glob_pieces pat) s = glob_search (\<lambda>c. c \<noteq> newline) pat s"
  by (induction s) (simp_all add: match_here_glob)

lemma re_search_compile:
  "ps \<noteq> [] \<Longrightarrow>
     re_search (compile_patterns ps) s = Some (list_ex (\<lambda>pat. glob_search (\<lambda>c. c \<noteq> newline) pat s) ps)"
  by (simp add: re_search_def compile_patterns_def replace_star_escape re_lex_compile
      re_group_compile list_ex_iff search_from_glob)

lemma join_empty: "sep \<noteq> [] \<Longrightarrow> join sep xs = [] \<longleftrightarrow> xs = [] \<or> xs = [[]]"
  by (induction sep xs rule: join.induct) auto

lemma chunk_not_empty: "chunk c \<noteq> []"
  by (simp add: chunk_def escape_char_def)

lemma chunks_empty: "concat (map chunk p) = [] \<longleftrightarrow> p = []"
  by (cases p) (simp_all add: chunk_not_empty)

lemma glob_search_Nil: "glob_search wild [] s"
  by (cases s) simp_all

lemma compile_patterns_empty: "compile_patterns ps = [] \<longleftrightarrow> ps = [] \<or> ps = [[]]"
proof -
  have "map (\<lambda>p. concat (map chunk p)) ps = [[]] \<longleftrightarrow> ps = [[]]"
    using chunks_empty by (cases ps) (simp_all del: concat_eq_Nil_conv)
  then show ?thesis
    by (auto simp: compile_patterns_def replace_star_escape join_empty)
qed

lemma file_selected_compile:
  "file_selected (compile_patterns I) (compile_patterns E) p =
     Some ((I = [] \<or> list_ex (\<lambda>pat. glob_search (\<lambda>c. c \<noteq> newline) pat p) I) \<and>
           \<not> (E \<noteq> [] \<and> E \<noteq> [[]] \<and> list_ex (\<lambda>pat. glob_search (\<lambda>c. c \<noteq> newline) pat p) E))"
proof -
  have inc: "(if compile_patterns I = [] then Some True else re_search (compile_patterns I) p)
      = Some (I = [] \<or> list_ex (\<lambda>pat. glob_search (\<lambda>c. c \<noteq> newline) pat p) I)"
    by (cases "I = []") (auto simp: compile_patterns_empty re_search_compile glob_search_Nil)
  have exc: "(if compile_patterns E = [] then Some True else map_option Not (re_search (compile_patterns E) p))
      = Some (\<not> (E \<noteq> [] \<and> E \<noteq> [[]] \<and> list_ex (\<lambda>pat. glob_search (\<lambda>c. c \<noteq> newline) pat p) E))"
    by (cases "E = []") (auto simp: compile_patterns_empty re_search_compile)
  show ?thesis
    unfolding file_selected_def inc exc by (auto split: bool.splits)
qed

text \<open>
  C1 as stated fails in two places. An exclude list holding only the empty pattern is
  compiled to the empty regular expression, which the code takes for "no exclude
  pattern": every file is selected, where the empty pattern, matching everywhere, would
  exclude every file. And the star is compiled to \<open>.*\<close>, which does not run over a
  line feed: \<open>a*b\<close> does not match a path with a line feed between \<open>a\<close> and \<open>b\<close>.
\<close>

theorem file_selection_counterexample:
  "file_selected (compile_patterns []) (compile_patterns [[]]) ''a.bin'' = Some True \<and>
   \<not> spec_select [] [[]] ''a.bin'' \<and>
   file_selected (compile_patterns [''a*b'']) (compile_patterns [])
     [CHR ''a'', CHR 0x0A, CHR ''b''] = Some False \<and>
   spec_select [''a*b''] [] [CHR ''a'', CHR 0x0A, CHR ''b'']"
  by (simp add: file_selected_def compile_patterns_def spec_select_def re_search_def
      re_escape_def escape_char_def special_chars_def backslash_def newline_def add_piece_def)

text \<open>
  C1, amended. For every path \<open>p\<close>, include list \<open>I\<close> and exclude list \<open>E\<close> the
  selection test returns (no regular expression error), and the file is selected iff
  (\<open>I\<close> is empty or some pattern of \<open>I\<close> matches \<open>p\<close>) and not (\<open>E\<close> is non-empty,
  is not the list of the empty pattern alone, and some pattern of \<open>E\<close> matches \<open>p\<close>).
  A pattern matches when it matches some substring of \<open>p\<close>, every character standing
  for itself but the star, which matches any run of characters other than line feeds.
\<close>

theorem file_selection:
  "file_selected (compile_patterns I) (compile_patterns E) p =
     Some ((I = [] \<or> list_ex (\<lambda>pat. glob_search (\<lambda>c. c \<noteq> newline) pat p) I) \<and>
           \<not> (E \<noteq> [] \<and> E \<noteq> [[]] \<and> list_ex (\<lambda>pat. glob_search (\<lambda>c. c \<noteq> newline) pat p) E))"
  by (rule file_selected_compile)

theorem file_selection_witness:
  "file_selected (compile_patterns [''vae/*'']) (compile_patterns []) ''vae/weights.bin''
     = Some True \<and>
   file_selected (compile_patterns [''vae/*'']) (compile_patterns []) ''text/config.json''
     = Some False \<and>
   file_selected (compile_patterns []) (compile_patterns [''*.md'']) ''README.md''
     = Some False"
  using file_selection [of "[''vae/*'']" "[]" "''vae/weights.bin''"]
    file_selection [of "[''vae/*'']" "[]" "''text/config.json''"]
    file_selection [of "[]" "[''*.md'']" "''README.md''"]
  by (simp add: newline_def)

section \<open>The plan generator: what is written\<close>

text \<open>
  No regular expression compiled from patterns raises an error, so on a manifest
  object the generator returns: the plan file holds the entries of the selected files,
  in the order of the manifest.
\<close>

lemma filter_files_compile:
  "filter_files (compile_patterns I) (compile_patterns E) files =
     Some (filter (\<lambda>p. file_selected (compile_patterns I) (compile_patterns E) p = Some True) files)"
proof (induction files)
  case Nil
  show ?case by simp
next
  case (Cons f files)
  obtain b where "file_selected (compile_patterns I) (compile_patterns E) f = Some b"
    using file_selected_compile by blast
  then show ?case using Cons.IH by simp
qed

lemma generate_file_list_object:
  "generate_file_list a (Object data) response fs =
     Returns (fs(fileslist_file a \<mapsto>
       concat (map (write_entry a)
         (filter (\<lambda>p. file_selected (compile_patterns (include_patterns a))
                        (compile_patterns (exclude_patterns a)) p = Some True)
            (manifest_files (siblings data))))))"
  by (simp add: generate_file_list_def filter_files_compile)

section \<open>The plan invalidator\<close>

lemma command_file_not_fileslist: "fileslist_file a \<noteq> command_file"
  by (cases "tool a") (simp_all add: fileslist_file_def command_file_def)

lemma should_regenerate_result:
  "should_regenerate_filelist a fs =
     (if fs command_file = None \<or> fs (fileslist_file a) = None \<or>
         (\<exists>text. fs command_file = Some text \<and> strip (read_text text) \<noteq> generate_command_string a)
      then (True, fs(command_file \<mapsto> generate_command_string a))
      else (False, fs))"
  by (cases "fs command_file") (auto simp: should_regenerate_filelist_def Let_def)

lemma read_text_no_cr: "carriage_return \<notin> set s \<Longrightarrow> read_text s = s"
  by (induction s rule: read_text.induct) auto

lemma strip_id: "s \<noteq> [] \<Longrightarrow> \<not> isspace (hd s) \<Longrightarrow> \<not> isspace (last s) \<Longrightarrow> strip s = s"
proof -
  assume ne: "s \<noteq> []" and h: "\<not> isspace (hd s)" and l: "\<not> isspace (last s)"
  have "dropWhile isspace s = s" using ne h by (cases s) simp_all
  moreover have "dropWhile isspace (rev s) = rev s"
    using ne l by (cases "rev s") (simp_all add: last_rev [symmetric] hd_rev)
  ultimately show ?thesis by (simp add: strip_def)
qed

lemma fingerprint_reads_back:
  assumes "carriage_return \<notin> set (generate_command_string a)"
    and "revision a = [] \<or> \<not> isspace (last (revision a))"
  shows "strip (read_text (generate_command_string a)) = generate_command_string a"
proof -
  have ne: "generate_command_string a \<noteq> []" and hd: "hd (generate_command_string a) = CHR ''R''"
    by (simp_all add: generate_command_string_def)
  have "last (generate_command_string a) = (if revision a = [] then CHR ''='' else last (revision a))"
    by (simp add: generate_command_string_def)
  then have "\<not> isspace (last (generate_command_string a))"
    using assms(2) by (auto simp: isspace_def)
  moreover have "\<not> isspace (hd (generate_command_string a))"
    by (simp add: hd isspace_def)
  ultimately show ?thesis
    using ne by (simp add: read_text_no_cr [OF assms(1)] strip_id)
qed

lemma strip_not_trailing_space: "s \<noteq> [] \<Longrightarrow> isspace (last s) \<Longrightarrow> strip t \<noteq> s"
proof
  assume ne: "s \<noteq> []" and sp: "isspace (last s)" and eq: "strip t = s"
  let ?d = "dropWhile isspace (rev (dropWhile isspace t))"
  have "rev s = ?d" using eq by (auto simp: strip_def)
  moreover have "?d \<noteq> []" using ne eq by (auto simp: strip_def)
  then have "\<not> isspace (hd ?d)" by (rule hd_dropWhile)
  ultimately have "\<not> isspace (hd (rev s))" by simp
  then show False using ne sp by (simp add: hd_rev)
qed

text \<open>
  C5 as stated fails. \<open>should_regenerate_filelist\<close> compares the current fingerprint
  with the record as it reads it back, stripped of surrounding whitespace. With a revision
  that ends in a space, the record a first run wrote equals the current fingerprint, the
  plan file exists, and the function still returns \<open>True\<close>.
\<close>

theorem regenerate_counterexample:
  "fst (should_regenerate_filelist trailing_space_args trailing_space_files) \<and>
   trailing_space_files command_file = Some (generate_command_string trailing_space_args) \<and>
   trailing_space_files (fileslist_file trailing_space_args) = Some []"
proof -
  have "generate_command_string trailing_space_args \<noteq> []"
    and "isspace (last (generate_command_string trailing_space_args))"
    by (simp_all add: generate_command_string_def trailing_space_args_def isspace_def)
  then have "strip (read_text (generate_command_string trailing_space_args))
      \<noteq> generate_command_string trailing_space_args"
    by (rule strip_not_trailing_space)
  then show ?thesis
    using command_file_not_fileslist [of trailing_space_args]
    by (auto simp: should_regenerate_result trailing_space_files_def)
qed

text \<open>
  C5, amended. \<open>should_regenerate_filelist\<close> returns \<open>True\<close> iff no fingerprint record
  exists, or no plan file exists, or the record, read back and stripped of leading and
  trailing whitespace, differs from the current fingerprint. When it returns \<open>True\<close>
  the record then holds the current fingerprint, and it holds it in the files that plan
  generation starts from; when it returns \<open>False\<close> nothing is written and the record,
  read back and stripped, is the current fingerprint. Starting with no record, and with
  a fingerprint that reads back as itself, two runs of the plan phase on the same manifest
  object with the same settings generate the plan in the first run and reuse it in the
  second.
\<close>

theorem should_regenerate_contract:
  "(fst (should_regenerate_filelist a fs) \<longleftrightarrow>
      fs command_file = None \<or> fs (fileslist_file a) = None \<or>
      (\<exists>text. fs command_file = Some text \<and>
              strip (read_text text) \<noteq> generate_command_string a)) \<and>
   (fst (should_regenerate_filelist a fs) \<longrightarrow>
      snd (should_regenerate_filelist a fs) = fs(command_file \<mapsto> generate_command_string a) \<and>
      (\<exists>fs'. fs' command_file = Some (generate_command_string a) \<and>
         main_plan_phase a parsed response in_cwd fs =
           map_result (Pair True) (generate_file_list a parsed response fs'))) \<and>
   (\<not> fst (should_regenerate_filelist a fs) \<longrightarrow>
      snd (should_regenerate_filelist a fs) = fs \<and>
      (\<exists>text. fs command_file = Some text \<and>
              strip (read_text text) = generate_command_string a)) \<and>
   (fs command_file = None \<and>
    strip (read_text (generate_command_string a)) = generate_command_string a \<longrightarrow>
      (\<exists>fs1. main_plan_phase a (Object data) response in_cwd fs = Returns (True, fs1) \<and>
             fs1 command_file = Some (generate_command_string a) \<and>
             main_plan_phase a (Object data) response in_cwd fs1 = Returns (False, fs1)))"
proof (intro conjI impI)
  show "fst (should_regenerate_filelist a fs) \<longleftrightarrow>
      fs command_file = None \<or> fs (fileslist_file a) = None \<or>
      (\<exists>text. fs command_file = Some text \<and>
              strip (read_text text) \<noteq> generate_command_string a)"
    by (simp add: should_regenerate_result)
next
  assume r: "fst (should_regenerate_filelist a fs)"
  then have eq: "should_regenerate_filelist a fs = (True, fs(command_file \<mapsto> generate_command_string a))"
    by (simp add: should_regenerate_result split: if_splits)
  then show "snd (should_regenerate_filelist a fs) = fs(command_file \<mapsto> generate_command_string a)"
    by simp
  let ?fs' = "if in_cwd then (fs(command_file \<mapsto> generate_command_string a))(fileslist_file a := None)
              else fs(command_file \<mapsto> generate_command_string a)"
  have "?fs' command_file = Some (generate_command_string a)"
    using command_file_not_fileslist [of a] by auto
  moreover have "main_plan_phase a parsed response in_cwd fs =
      map_result (Pair True) (generate_file_list a parsed response ?fs')"
    by (simp add: main_plan_phase_def eq)
  ultimately show "\<exists>fs'. fs' command_file = Some (generate_command_string a) \<and>
         main_plan_phase a parsed response in_cwd fs =
           map_result (Pair True) (generate_file_list a parsed response fs')"
    by blast
next
  assume r: "\<not> fst (should_regenerate_filelist a fs)"
  then show "snd (should_regenerate_filelist a fs) = fs"
    unfolding should_regenerate_result by (auto split: if_splits)
  from r show "\<exists>text. fs command_file = Some text \<and>
              strip (read_text text) = generate_command_string a"
    by (cases "fs command_file") (auto simp: should_regenerate_result split: if_splits)
next
  assume h: "fs command_file = None \<and>
    strip (read_text (generate_command_string a)) = generate_command_string a"
  let ?cur = "generate_command_string a"
  let ?fs0 = "if in_cwd then (fs(command_file \<mapsto> ?cur))(fileslist_file a := None)
              else fs(command_file \<mapsto> ?cur)"
  obtain plan where gen: "generate_file_list a (Object data) response ?fs0
      = Returns (?fs0(fileslist_file a \<mapsto> plan))"
    using generate_file_list_object by blast
  let ?fs1 = "?fs0(fileslist_file a \<mapsto> plan)"
  have first: "main_plan_phase a (Object data) response in_cwd fs = Returns (True, ?fs1)"
    using h gen by (simp add: main_plan_phase_def should_regenerate_result)
  have rec: "?fs1 command_file = Some ?cur"
    using command_file_not_fileslist [of a] by auto
  have "should_regenerate_filelist a ?fs1 = (False, ?fs1)"
    using h rec by (simp add: should_regenerate_result)
  then have second: "main_plan_phase a (Object data) response in_cwd ?fs1 = Returns (False, ?fs1)"
    by (simp add: main_plan_phase_def)
  from first rec second
  show "\<exists>fs1. main_plan_phase a (Object data) response in_cwd fs = Returns (True, fs1) \<and>
             fs1 command_file = Some (generate_command_string a) \<and>
             main_plan_phase a (Object data) response in_cwd fs1 = Returns (False, fs1)"
    by blast
qed

theorem should_regenerate_contract_witness:
  "fst (should_regenerate_filelist gpt2_args Map.empty) \<and>
   snd (should_regenerate_filelist gpt2_args Map.empty) =
     [command_file \<mapsto> generate_command_string gpt2_args] \<and>
   (\<exists>fs1. main_plan_phase gpt2_args (Object scenario_manifest) [] False Map.empty
            = Returns (True, fs1) \<and>
          fs1 command_file = Some (generate_command_string gpt2_args) \<and>
          main_plan_phase gpt2_args (Object scenario_manifest) [] False fs1
            = Returns (False, fs1))"
proof -
  have "strip (read_text (generate_command_string gpt2_args)) = generate_command_string gpt2_args"
    by (rule fingerprint_reads_back)
      (simp_all add: generate_command_string_def gpt2_args_def or_empty_def
        carriage_return_def isspace_def)
  then show ?thesis
    using should_regenerate_contract [of gpt2_args Map.empty "Object scenario_manifest" "[]"
        False scenario_manifest]
    by simp
qed

section \<open>The gated-access check\<close>

text \<open>
  C7 as stated fails. A response text that decodes to a JSON value other than an object
  (the text \<open>[]\<close>, say) has no truthy \<open>gated\<close> field and is not malformed, yet the
  check does not return: \<open>data.get\<close> raises \<open>AttributeError\<close>, which the \<open>except\<close>
  clause of line 105 does not catch.
\<close>

theorem gated_check_counterexample:
  "check_authentication NonObject ''[]'' gpt2_args = Raises AttributeError \<and>
   check_authentication NonObject ''[]'' gpt2_args \<noteq> Returns () \<and>
   check_authentication NonObject ''[]'' gpt2_args \<noteq> Exits 1"
  by (simp add: check_authentication_def)

text \<open>
  C7, amended. For every response text that fails to decode or decodes to a JSON object,
  and every credential setting, \<open>check_authentication\<close> ends the process with status 1
  iff the user name or the token is missing or empty and either the text decodes to an
  object with a truthy \<open>gated\<close> field, or it fails to decode and contains the literal
  \<open>"gated":true\<close>; in all other of these cases (malformed text without the literal
  included) it returns.
\<close>

theorem gated_check:
  "parsed \<noteq> NonObject \<Longrightarrow>
     check_authentication parsed response a =
       (if (\<not> truthy (hf_token a) \<or> \<not> truthy (hf_username a)) \<and>
           ((\<exists>data. parsed = Object data \<and>
                    jtruthy (case gated data of None \<Rightarrow> JBool False | Some v \<Rightarrow> v)) \<or>
            (parsed = JSONDecodeError \<and> contains response gated_true))
        then Exits 1 else Returns ())"
  by (cases parsed) (auto simp: check_authentication_def)

theorem gated_check_witness:
  "check_authentication JSONDecodeError (''{'' @ gated_true @ '','') gpt2_args = Exits 1 \<and>
   check_authentication JSONDecodeError ''<html>'' gpt2_args = Returns () \<and>
   check_authentication (Object (scenario_manifest\<lparr>gated := Some (JStr ''auto'')\<rparr>)) [] gpt2_args
     = Exits 1 \<and>
   check_authentication (Object scenario_manifest) [] gpt2_args = Returns ()"
  using gated_check [of JSONDecodeError "''{'' @ gated_true @ '',''" gpt2_args]
    gated_check [of JSONDecodeError "''<html>''" gpt2_args]
    gated_check [of "Object (scenario_manifest\<lparr>gated := Some (JStr ''auto'')\<rparr>)" "[]" gpt2_args]
    gated_check [of "Object scenario_manifest" "[]" gpt2_args]
  by (simp add: gated_true_def gpt2_args_def truthy_def scenario_manifest_def)

text \<open>
  C10. For a gated repository the check asks for both a user name and a token: when
  either is missing or empty the process ends with status 1. The user name is used
  nowhere else but in the fingerprint: the metadata request, the downloader command and
  the plan file are the same whatever the user name is.
\<close>

theorem both_credentials_required:
  "(((\<exists>data. parsed = Object data \<and>
              jtruthy (case gated data of None \<Rightarrow> JBool False | Some v \<Rightarrow> v)) \<or>
      (parsed = JSONDecodeError \<and> contains response gated_true)) \<and>
     (\<not> truthy (hf_username a) \<or> \<not> truthy (hf_token a))
       \<longrightarrow> check_authentication parsed response a = Exits 1) \<and>
   fetch_cmd (a\<lparr>hf_username := u\<rparr>) metadata_file = fetch_cmd a metadata_file \<and>
   download_cmd (a\<lparr>hf_username := u\<rparr>) = download_cmd a \<and>
   generate_file_list (a\<lparr>hf_username := u\<rparr>) parsed response fs
     = generate_file_list a parsed response fs"
proof -
  have w: "write_entry (a\<lparr>hf_username := u\<rparr>) = write_entry a"
    by (rule ext) (simp add: write_entry_def url_def)
  have fl: "fileslist_file (a\<lparr>hf_username := u\<rparr>) = fileslist_file a"
    by (simp add: fileslist_file_def)
  have "generate_file_list (a\<lparr>hf_username := u\<rparr>) parsed response fs
     = generate_file_list a parsed response fs"
    unfolding generate_file_list_def w fl by simp
  then show ?thesis
    by (auto simp: check_authentication_def fetch_cmd_def download_cmd_def fileslist_file_def)
qed

theorem both_credentials_required_witness:
  "check_authentication (Object (scenario_manifest\<lparr>gated := Some (JBool True)\<rparr>)) []
     (gpt2_args\<lparr>hf_token := Some ''hf_abc''\<rparr>) = Exits 1 \<and>
   check_authentication (Object (scenario_manifest\<lparr>gated := Some (JBool True)\<rparr>)) []
     (gpt2_args\<lparr>hf_username := Some ''user''\<rparr>) = Exits 1"
  using both_credentials_required
      [of "Object (scenario_manifest\<lparr>gated := Some (JBool True)\<rparr>)" "[]"
          "gpt2_args\<lparr>hf_token := Some ''hf_abc''\<rparr>"]
    both_credentials_required
      [of "Object (scenario_manifest\<lparr>gated := Some (JBool True)\<rparr>)" "[]"
          "gpt2_args\<lparr>hf_username := Some ''user''\<rparr>"]
  by (simp add: gpt2_args_def truthy_def scenario_manifest_def)

section \<open>Plan generation\<close>

text \<open>The directory and base name of a path with no slash, and of a path cut at its last slash.\<close>

lemma takeWhile_not_slash:
  "CHR ''/'' \<notin> set b \<Longrightarrow> takeWhile (\<lambda>c. c \<noteq> CHR ''/'') (rev b @ rest) = rev b @ takeWhile (\<lambda>c. c \<noteq> CHR ''/'') rest"
  by (rule takeWhile_append2) auto

lemma dropWhile_not_slash:
  "CHR ''/'' \<notin> set b \<Longrightarrow> dropWhile (\<lambda>c. c \<noteq> CHR ''/'') (rev b @ rest) = dropWhile (\<lambda>c. c \<noteq> CHR ''/'') rest"
  by (rule dropWhile_append2) auto

lemma basename_no_slash:
  assumes "CHR ''/'' \<notin> set p"
  shows "basename p = p"
proof -
  have tw: "takeWhile (\<lambda>c. c \<noteq> CHR ''/'') (rev p) = rev p"
    by (rule takeWhile_eq_all_conv [THEN iffD2]) (use assms in auto)
  show ?thesis unfolding basename_def tw by simp
qed

lemma dirname_no_slash:
  assumes "CHR ''/'' \<notin> set p"
  shows "dirname p = []"
  using dropWhile_not_slash [OF assms, of "[]"] by (simp add: dirname_def)

lemma basename_join:
  assumes "CHR ''/'' \<notin> set b"
  shows "basename (d @ CHR ''/'' # b) = b"
  using takeWhile_not_slash [OF assms, of "CHR ''/'' # rev d"] by (simp add: basename_def)

lemma dirname_join:
  assumes "CHR ''/'' \<notin> set b" and "d \<noteq> []" and "last d \<noteq> CHR ''/''"
  shows "dirname (d @ CHR ''/'' # b) = d"
proof -
  have h: "rev (dropWhile (\<lambda>c. c \<noteq> CHR ''/'') (rev (d @ CHR ''/'' # b))) = d @ ''/''"
    using dropWhile_not_slash [OF assms(1), of "CHR ''/'' # rev d"] by simp
  have ne: "d @ ''/'' \<noteq> replicate (length (d @ ''/'')) (CHR ''/'')"
  proof
    assume "d @ ''/'' = replicate (length (d @ ''/'')) (CHR ''/'')"
    then have "set (d @ ''/'') \<subseteq> {CHR ''/''}"
      by (metis set_replicate_conv_if empty_subsetI subset_refl)
    then have "last d = CHR ''/''" using last_in_set [OF assms(2)] by auto
    then show False using assms(3) by simp
  qed
  have "dropWhile (\<lambda>c. c = CHR ''/'') (rev d) = rev d"
    using assms(2,3) by (cases "rev d") (simp_all add: hd_rev [symmetric] last_rev)
  then show ?thesis
    unfolding dirname_def h Let_def using ne by simp
qed

lemma scenario_plan:
  assumes "exclude_patterns a = [''*.md'']" and "include_patterns a = []"
  shows "generate_file_list a (Object scenario_manifest) response fs =
           Returns (fs(fileslist_file a \<mapsto> write_entry a ''a.bin''))"
proof -
  have "file_selected [] (compile_patterns [''*.md'']) ''a.bin'' = Some True"
    and "file_selected [] (compile_patterns [''*.md'']) ''README.md'' = Some False"
    by (simp_all add: file_selected_def compile_patterns_def re_search_def
        re_escape_def escape_char_def special_chars_def backslash_def newline_def add_piece_def)
  then show ?thesis
    using assms
    by (simp add: generate_file_list_def scenario_manifest_def compile_patterns_def [of "[]"])
qed

text \<open>
  The file names line 139 keeps are the names of the entries, an absent name read as
  the empty string, with the empty ones left out; and the files that pass the test of
  lines 143-144 are those the patterns select.
\<close>

lemma manifest_files_names:
  "manifest_files sibs = filter (\<lambda>name. name \<noteq> []) (map (\<lambda>sib. or_empty (rfilename sib)) sibs)"
  by (induction sibs) (simp_all add: or_empty_def split: option.splits)

lemma selected_files_glob:
  "filter (\<lambda>p. file_selected (compile_patterns I) (compile_patterns E) p = Some True) names =
   filter (\<lambda>p. (I = [] \<or> list_ex (\<lambda>pat. glob_search (\<lambda>c. c \<noteq> newline) pat p) I) \<and>
               \<not> (E \<noteq> [] \<and> E \<noteq> [[]] \<and> list_ex (\<lambda>pat. glob_search (\<lambda>c. c \<noteq> newline) pat p) E))
     names"
  by (simp add: file_selected_compile)

text \<open>
  C6 as stated fails. An entry whose file name is the empty string has a relative path
  that passes the selection test (there are no patterns), but line 139 leaves it out:
  the plan file is written empty, with no entry for it.
\<close>

theorem plan_generation_counterexample:
  "file_selected (compile_patterns (include_patterns gpt2_args))
     (compile_patterns (exclude_patterns gpt2_args)) [] = Some True \<and>
   siblings unnamed_manifest = [\<lparr>rfilename = Some [], declared_size = None\<rparr>] \<and>
   generate_file_list gpt2_args (Object unnamed_manifest) [] Map.empty =
     Returns [''.hfd/aria2c_urls.txt'' \<mapsto> []]"
  by (simp add: generate_file_list_def unnamed_manifest_def gpt2_args_def compile_patterns_def
      file_selected_def fileslist_file_def)

text \<open>
  C6, amended. On a manifest object the generator returns and writes the plan file of
  the tool. The plan holds one entry for each sibling entry whose file name is present,
  is not empty and is selected by the patterns (as C1, amended, says), in the order of
  the manifest, and nothing else. The entry's address is
  \<open>endpoint/prefix/resolve/revision/path\<close>. For \<open>aria2c\<close> the entry is the address
  line, the \<open>dir=\<close> line with the parent directory (empty for a path with no slash),
  the \<open>out=\<close> line with the base name, the bearer header line when a token is set, and
  an empty line; for \<open>wget\<close> it is the address line alone. On the manifest of the
  scenario with the one exclude pattern \<open>*.md\<close> the plan is the entry of \<open>a.bin\<close> and
  nothing else.
\<close>

theorem plan_generation:
  "(let names = filter (\<lambda>name. name \<noteq> []) (map (\<lambda>sib. or_empty (rfilename sib)) (siblings data));
        I = include_patterns a;
        E = exclude_patterns a;
        selected = filter (\<lambda>p.
            (I = [] \<or> list_ex (\<lambda>pat. glob_search (\<lambda>c. c \<noteq> newline) pat p) I) \<and>
            \<not> (E \<noteq> [] \<and> E \<noteq> [[]] \<and> list_ex (\<lambda>pat. glob_search (\<lambda>c. c \<noteq> newline) pat p) E))
          names;
        address = (\<lambda>p. hf_endpoint a @ ''/'' @ download_api_path a @ ''/resolve/'' @
                       revision a @ ''/'' @ p)
    in (tool a = Aria2c \<longrightarrow>
          generate_file_list a (Object data) response fs =
            Returns (fs(''.hfd/aria2c_urls.txt'' \<mapsto>
              concat (map (\<lambda>p.
                  address p @ [newline] @
                  ''  dir='' @ dirname p @ [newline] @
                  ''  out='' @ basename p @ [newline] @
                  (if truthy (hf_token a)
                   then ''  header=Authorization: Bearer '' @ or_empty (hf_token a) @ [newline]
                   else []) @
                  [newline])
                selected)))) \<and>
       (tool a = Wget \<longrightarrow>
          generate_file_list a (Object data) response fs =
            Returns (fs(''.hfd/wget_urls.txt'' \<mapsto>
              concat (map (\<lambda>p. address p @ [newline]) selected))))) \<and>
   (CHR ''/'' \<notin> set file \<longrightarrow> dirname file = [] \<and> basename file = file) \<and>
   (CHR ''/'' \<notin> set b \<and> d \<noteq> [] \<and> last d \<noteq> CHR ''/'' \<longrightarrow>
      dirname (d @ ''/'' @ b) = d \<and> basename (d @ ''/'' @ b) = b) \<and>
   (exclude_patterns a = [''*.md''] \<and> include_patterns a = [] \<and> tool a = Aria2c \<longrightarrow>
      generate_file_list a (Object scenario_manifest) response fs =
        Returns (fs(''.hfd/aria2c_urls.txt'' \<mapsto>
          hf_endpoint a @ ''/'' @ download_api_path a @ ''/resolve/'' @ revision a @ ''/a.bin'' @
          [newline] @ ''  dir='' @ [newline] @ ''  out=a.bin'' @ [newline] @
          (if truthy (hf_token a)
           then ''  header=Authorization: Bearer '' @ or_empty (hf_token a) @ [newline]
           else []) @
          [newline]))) \<and>
   (exclude_patterns a = [''*.md''] \<and> include_patterns a = [] \<and> tool a = Wget \<longrightarrow>
      generate_file_list a (Object scenario_manifest) response fs =
        Returns (fs(''.hfd/wget_urls.txt'' \<mapsto>
          hf_endpoint a @ ''/'' @ download_api_path a @ ''/resolve/'' @ revision a @ ''/a.bin'' @
          [newline])))"
proof -
  let ?sel = "filter (\<lambda>p. (include_patterns a = [] \<or>
                  list_ex (\<lambda>pat. glob_search (\<lambda>c. c \<noteq> newline) pat p) (include_patterns a)) \<and>
                \<not> (exclude_patterns a \<noteq> [] \<and> exclude_patterns a \<noteq> [[]] \<and>
                   list_ex (\<lambda>pat. glob_search (\<lambda>c. c \<noteq> newline) pat p) (exclude_patterns a)))
              (filter (\<lambda>name. name \<noteq> [])
                 (map (\<lambda>sib. or_empty (rfilename sib)) (siblings data)))"
  let ?address = "\<lambda>p. hf_endpoint a @ ''/'' @ download_api_path a @ ''/resolve/'' @
                       revision a @ ''/'' @ p"
  let ?aria = "\<lambda>p. ?address p @ [newline] @
                  ''  dir='' @ dirname p @ [newline] @
                  ''  out='' @ basename p @ [newline] @
                  (if truthy (hf_token a)
                   then ''  header=Authorization: Bearer '' @ or_empty (hf_token a) @ [newline]
                   else []) @
                  [newline]"
  let ?wget = "\<lambda>p. ?address p @ [newline]"
  have gen: "generate_file_list a (Object data) response fs =
      Returns (fs(fileslist_file a \<mapsto> concat (map (write_entry a) ?sel)))"
    unfolding generate_file_list_object selected_files_glob manifest_files_names ..
  have aria: "fileslist_file a = ''.hfd/aria2c_urls.txt'' \<and> write_entry a = ?aria"
    if "tool a = Aria2c"
    using that by (simp add: fileslist_file_def write_entry_def url_def fun_eq_iff)
  have wget: "fileslist_file a = ''.hfd/wget_urls.txt'' \<and> write_entry a = ?wget"
    if "tool a = Wget"
    using that by (simp add: fileslist_file_def write_entry_def url_def fun_eq_iff)
  have c1: "tool a = Aria2c \<longrightarrow>
      generate_file_list a (Object data) response fs =
        Returns (fs(''.hfd/aria2c_urls.txt'' \<mapsto> concat (map ?aria ?sel)))"
    unfolding gen using aria by simp
  have c2: "tool a = Wget \<longrightarrow>
      generate_file_list a (Object data) response fs =
        Returns (fs(''.hfd/wget_urls.txt'' \<mapsto> concat (map ?wget ?sel)))"
    unfolding gen using wget by simp
  have c3: "CHR ''/'' \<notin> set file \<longrightarrow> dirname file = [] \<and> basename file = file"
    by (simp add: dirname_no_slash basename_no_slash)
  have c4: "CHR ''/'' \<notin> set b \<and> d \<noteq> [] \<and> last d \<noteq> CHR ''/'' \<longrightarrow>
      dirname (d @ ''/'' @ b) = d \<and> basename (d @ ''/'' @ b) = b"
    by (simp add: dirname_join basename_join)
  have c5: "exclude_patterns a = [''*.md''] \<and> include_patterns a = [] \<and> tool a = Aria2c \<longrightarrow>
      generate_file_list a (Object scenario_manifest) response fs =
        Returns (fs(''.hfd/aria2c_urls.txt'' \<mapsto>
          hf_endpoint a @ ''/'' @ download_api_path a @ ''/resolve/'' @ revision a @ ''/a.bin'' @
          [newline] @ ''  dir='' @ [newline] @ ''  out=a.bin'' @ [newline] @
          (if truthy (hf_token a)
           then ''  header=Authorization: Bearer '' @ or_empty (hf_token a) @ [newline]
           else []) @
          [newline]))"
    by (simp add: scenario_plan fileslist_file_def write_entry_def url_def dirname_no_slash
        basename_no_slash)
  have c6: "exclude_patterns a = [''*.md''] \<and> include_patterns a = [] \<and> tool a = Wget \<longrightarrow>
      generate_file_list a (Object scenario_manifest) response fs =
        Returns (fs(''.hfd/wget_urls.txt'' \<mapsto>
          hf_endpoint a @ ''/'' @ download_api_path a @ ''/resolve/'' @ revision a @ ''/a.bin'' @
          [newline]))"
    by (simp add: scenario_plan fileslist_file_def write_entry_def url_def)
  show ?thesis
    unfolding Let_def using c1 c2 c3 c4 c5 c6 by (simp only: append_assoc)
qed

theorem plan_generation_witness:
  "generate_file_list (gpt2_args\<lparr>exclude_patterns := [''*.md'']\<rparr>) (Object mixed_manifest)
     [] Map.empty =
     Returns [''.hfd/aria2c_urls.txt'' \<mapsto>
       ''https://huggingface.co/gpt2/resolve/main/vae/weights.bin'' @ [newline] @
       ''  dir=vae'' @ [newline] @ ''  out=weights.bin'' @ [newline, newline] @
       ''https://huggingface.co/gpt2/resolve/main/a.bin'' @ [newline] @
       ''  dir='' @ [newline] @ ''  out=a.bin'' @ [newline, newline]] \<and>
   generate_file_list (gpt2_args\<lparr>exclude_patterns := [''*.md'']\<rparr>) (Object scenario_manifest)
     [] Map.empty =
     Returns [''.hfd/aria2c_urls.txt'' \<mapsto>
       ''https://huggingface.co/gpt2/resolve/main/a.bin'' @ [newline] @
       ''  dir='' @ [newline] @ ''  out=a.bin'' @ [newline, newline]] \<and>
   dirname ''vae/weights.bin'' = ''vae'' \<and> basename ''vae/weights.bin'' = ''weights.bin'' \<and>
   dirname ''a.bin'' = [] \<and> basename ''a.bin'' = ''a.bin''"
proof -
  let ?a = "gpt2_args\<lparr>exclude_patterns := [''*.md'']\<rparr>"
  note P = plan_generation [of mixed_manifest ?a "[]" Map.empty "''a.bin''"
      "''weights.bin''" "''vae''", unfolded Let_def]
  have tl: "tool ?a = Aria2c"
    and pats: "exclude_patterns ?a = [''*.md''] \<and> include_patterns ?a = [] \<and> tool ?a = Aria2c"
    and root: "CHR ''/'' \<notin> set ''a.bin''"
    and sub: "CHR ''/'' \<notin> set ''weights.bin'' \<and> ''vae'' \<noteq> [] \<and> last ''vae'' \<noteq> CHR ''/''"
    by (simp_all add: gpt2_args_def)
  from P root have r: "dirname ''a.bin'' = [] \<and> basename ''a.bin'' = ''a.bin''"
    by blast
  from P sub have v: "dirname (''vae'' @ ''/'' @ ''weights.bin'') = ''vae'' \<and>
      basename (''vae'' @ ''/'' @ ''weights.bin'') = ''weights.bin''"
    by blast
  have v': "dirname ''vae/weights.bin'' = ''vae'' \<and> basename ''vae/weights.bin'' = ''weights.bin''"
    using v by simp
  from P tl have g: "generate_file_list ?a (Object mixed_manifest) [] Map.empty =
      Returns [''.hfd/aria2c_urls.txt'' \<mapsto>
       ''https://huggingface.co/gpt2/resolve/main/vae/weights.bin'' @ [newline] @
       ''  dir=vae'' @ [newline] @ ''  out=weights.bin'' @ [newline, newline] @
       ''https://huggingface.co/gpt2/resolve/main/a.bin'' @ [newline] @
       ''  dir='' @ [newline] @ ''  out=a.bin'' @ [newline, newline]]"
    by (simp add: mixed_manifest_def gpt2_args_def or_empty_def truthy_def r v' newline_def)
  from P pats have s: "generate_file_list ?a (Object scenario_manifest) [] Map.empty =
      Returns [''.hfd/aria2c_urls.txt'' \<mapsto>
       ''https://huggingface.co/gpt2/resolve/main/a.bin'' @ [newline] @
       ''  dir='' @ [newline] @ ''  out=a.bin'' @ [newline, newline]]"
    by (simp add: gpt2_args_def truthy_def)
  from g s r v' show ?thesis by simp
qed

section \<open>The verifier\<close>

text \<open>
  When every entry has a file name, \<open>verify_files\<close> returns \<open>False\<close> iff some entry
  declares a nonzero size and its local file exists with another length.
\<close>

lemma verify_siblings_contract:
  "\<forall>sib\<in>set sibs. rfilename sib \<noteq> None \<Longrightarrow>
     verify_siblings sizes sibs =
       Returns (\<not> (\<exists>sib\<in>set sibs. \<exists>name n k.
                  rfilename sib = Some name \<and> declared_size sib = Some n \<and> n \<noteq> 0 \<and>
                  sizes name = Some k \<and> int k \<noteq> n))"
proof (induction sibs)
  case Nil
  show ?case by simp
next
  case (Cons sib sibs)
  then obtain name where n: "rfilename sib = Some name" by auto
  have ih: "verify_siblings sizes sibs =
       Returns (\<not> (\<exists>sib\<in>set sibs. \<exists>name n k.
                  rfilename sib = Some name \<and> declared_size sib = Some n \<and> n \<noteq> 0 \<and>
                  sizes name = Some k \<and> int k \<noteq> n))"
    using Cons by simp
  show ?case
    by (cases "declared_size sib"; cases "sizes name") (auto simp: n ih)
qed

text \<open>
  C8. \<open>main\<close> never calls the verifier. On the manifest of the scenario, with a
  downloader that exits with zero, the run reports success and ends with status 0; the
  verifier, had it been called on a local \<open>a.bin\<close> of 5 bytes (10 declared), would
  have said \<open>False\<close>.
\<close>

theorem verifier_never_called:
  "verify_files [''a.bin'' \<mapsto> 5] (Object scenario_manifest) = Returns False \<and>
   map_result snd
     (main_run gpt2_args (Object scenario_manifest) [] False Map.empty (\<lambda>k. 0) 1000000) =
     Returns \<lparr>exit_status = 0, attempts = 1, launched = 2,
              log = [AttemptMsg 1 1000000, CompletedMsg]\<rparr>"
proof -
  have "main_download (\<lambda>k. 0) 1000000 =
      \<lparr>exit_status = 0, attempts = 1, launched = 2, log = [AttemptMsg 1 1000000, CompletedMsg]\<rparr>"
    by (simp add: main_download_def retry_loop_success numeral_2_eq_2)
  moreover have "check_authentication (Object scenario_manifest) [] gpt2_args = Returns ()"
    by (simp add: check_authentication_def scenario_manifest_def)
  moreover obtain fs1 where
    "main_plan_phase gpt2_args (Object scenario_manifest) [] False Map.empty = Returns (True, fs1)"
    by (simp add: main_plan_phase_def should_regenerate_result generate_file_list_object)
  ultimately show ?thesis
    by (simp add: main_run_def verify_files_def scenario_manifest_def)
qed

end
